theory Spec2Isabelle
  imports Complex_Main "HOL-Library.Word" "HOL-Library.AList"
begin

unbundle bit_operations_syntax

section \<open>Bytes and JavaScript numbers\<close>

text \<open>
  A \<open>Buffer\<close> is a list of bytes. A JavaScript number that holds an integer is an
  \<open>int\<close>; the bitwise operators first convert their operands to 32 bits
  (\<open>ToInt32\<close>, \<open>ToUint32\<close>), which is the conversion of an integer to a 32-bit word.
\<close>

type_synonym byte = "8 word"

datatype error =
    UnexpectedEndOfBuffer
  | HeaderAlreadyWritten
  | MustWriteHeader
  | UnknownPacketName string
  | UnknownPacketId nat
  | BadMagic
  | UnsupportedVersion nat
  | OutOfRange
  | ClientWriteError
  | DecodeFailed
  | TypeError

section \<open>varint.ts\<close>

text \<open>
  \<open>encodeVarint\<close>: the loop runs while \<open>value >= 0x80\<close>, a comparison of numbers; the byte
  pushed is \<open>(value & 0x7F) | 0x80\<close> on the 32-bit conversion of \<open>value\<close>, and
  \<open>value >>>= 7\<close> replaces \<open>value\<close> by the unsigned 32-bit conversion shifted right.
\<close>

function encodeVarint :: "int \<Rightarrow> byte list" where
  "encodeVarint v =
     (if v \<ge> 0x80
      then ucast (((word_of_int v :: 32 word) AND 0x7F) OR 0x80)
             # encodeVarint (uint (drop_bit 7 (word_of_int v :: 32 word)))
      else [ucast ((word_of_int v :: 32 word) AND 0x7F)])"
  by pat_completeness auto
termination
proof (relation "measure nat")
  show "wf (measure nat)" by simp
next
  fix v :: int
  assume v: "128 \<le> v"
  have "uint (drop_bit 7 (word_of_int v :: 32 word))
          = drop_bit 7 (take_bit 32 (uint (word_of_int v :: 32 word)))"
    using unsigned_drop_bit_eq [where 'a = int and 'b = 32 and n = 7 and w = "word_of_int v"]
    by simp
  also have "\<dots> = drop_bit 7 (take_bit 32 v)"
    by (simp add: uint_word_of_int_eq)
  also have "\<dots> = (v mod 2 ^ 32) div 2 ^ 7"
    by (simp only: drop_bit_eq_div take_bit_eq_mod)
  also have "\<dots> \<le> v div 2 ^ 7"
    using v by (intro zdiv_mono1) (simp_all add: zmod_le_nonneg_dividend)
  also have "\<dots> < v" using v by simp
  finally have "nat (uint (drop_bit 7 (word_of_int v :: 32 word))) < nat v"
    using v by (simp only: nat_mono_iff)
  then show "(uint (drop_bit 7 (word_of_int v :: 32 word)), v) \<in> measure nat"
    by (simp only: in_measure)
qed

declare encodeVarint.simps [simp del]

text \<open>
  \<open>decodeVarint\<close>: \<open>value |= (byte & 0x7F) << shift\<close> works on 32-bit integers, the shift
  count taken modulo 32; the value returned is the signed reading of the 32 bits.
  The loop ends by \<open>break\<close> at a byte whose bit \<open>0x80\<close> is clear, or by the \<open>throw\<close>
  when \<open>offset + bytesRead\<close> reaches the length of the buffer.
\<close>

function decodeVarint_loop ::
  "byte list \<Rightarrow> nat \<Rightarrow> 32 word \<Rightarrow> nat \<Rightarrow> nat \<Rightarrow> error + (int \<times> nat)" where
  "decodeVarint_loop buffer offset v shift bytesRead =
     (if offset + bytesRead \<ge> length buffer then Inl UnexpectedEndOfBuffer
      else
        let b = buffer ! (offset + bytesRead);
            v' = v OR push_bit (shift mod 32) (ucast (b AND 0x7F));
            bytesRead' = bytesRead + 1
        in if b AND 0x80 = 0 then Inr (sint v', bytesRead')
           else decodeVarint_loop buffer offset v' (shift + 7) bytesRead')"
  by pat_completeness auto
termination
  by (relation "measure (\<lambda>(buffer, offset, v, shift, bytesRead). length buffer - (offset + bytesRead))")
     auto

declare decodeVarint_loop.simps [simp del]

definition decodeVarint :: "byte list \<Rightarrow> nat \<Rightarrow> error + (int \<times> nat)" where
  "decodeVarint buffer offset = decodeVarint_loop buffer offset 0 0 0"


section \<open>JavaScript values\<close>

text \<open>
  A payload is a tree of scalars, byte blobs (\<open>Buffer\<close>), arrays and plain objects. An
  object is the list of its own enumerable properties in enumeration order, the keys
  distinct; a number is an integer; a string is its list of characters. \<open>Map\<close>s and
  typed arrays other than \<open>Buffer\<close> are not values of the model.
\<close>

datatype jsval =
    Undefined
  | Null
  | Bool bool
  | Num int
  | Str string
  | Buf "byte list"
  | Arr "jsval list"
  | Obj "(string \<times> jsval) list"

text \<open>\<open>obj[key]\<close> on the properties of an object: \<open>undefined\<close> when the key is absent.\<close>

definition property :: "(string \<times> jsval) list \<Rightarrow> string \<Rightarrow> jsval" where
  "property kvs k = (case map_of kvs k of None \<Rightarrow> Undefined | Some v \<Rightarrow> v)"

text \<open>
  \<open>result[key] = value\<close>, for each pair in turn, on an object that starts empty: a key
  assigned again keeps its place and takes the new value.
\<close>

definition assign_all :: "(string \<times> jsval) list \<Rightarrow> (string \<times> jsval) list" where
  "assign_all kvs = foldl (\<lambda>result (k, v). AList.update k v result) [] kvs"

text \<open>The decimal digits of a natural number, as \<open>String(n)\<close> prints them.\<close>

fun decimal :: "nat \<Rightarrow> string" where
  "decimal n =
     (if n < 10 then [char_of (48 + n)] else decimal (n div 10) @ [char_of (48 + n mod 10)])"

declare decimal.simps [simp del]

subsection \<open>Base64 of the platform's \<open>Buffer\<close>\<close>

text \<open>
  \<open>buf.toString("base64")\<close> writes three bytes as four characters of the alphabet
  \<open>A-Z a-z 0-9 + /\<close> and pads the last group with \<open>=\<close>.
  \<open>Buffer.from(s, "base64")\<close> reads the characters up to the first \<open>=\<close>, skips
  every character outside the alphabet (\<open>-\<close> and \<open>_\<close> count as \<open>+\<close> and \<open>/\<close>), and
  turns each group of four six-bit values into three bytes; a last group of two or three
  values gives one or two bytes.
\<close>

definition b64char :: "nat \<Rightarrow> char" where
  "b64char i =
     (if i < 26 then char_of (i + 65)
      else if i < 52 then char_of (i + 71)
      else if i < 62 then char_of (i - 4)
      else if i = 62 then CHR ''+'' else CHR ''/'')"


fun toBase64 :: "byte list \<Rightarrow> string" where
  "toBase64 [] = []"
| "toBase64 [a] =
     [b64char (unat a div 4), b64char (unat a mod 4 * 16), CHR ''='', CHR ''='']"
| "toBase64 [a, b] =
     [b64char (unat a div 4), b64char (unat a mod 4 * 16 + unat b div 16),
      b64char (unat b mod 16 * 4), CHR ''='']"
| "toBase64 (a # b # c # rest) =
     [b64char (unat a div 4), b64char (unat a mod 4 * 16 + unat b div 16),
      b64char (unat b mod 16 * 4 + unat c div 64), b64char (unat c mod 64)] @ toBase64 rest"




section \<open>chunk.ts\<close>

text \<open>
  \<open>serializeData\<close>: \<open>null\<close> and \<open>undefined\<close> are returned; a \<open>Buffer\<close> becomes the
  object \<open>{__type: "Buffer", __data: base64}\<close>; an array is mapped; any other object is
  copied property by property; everything else is returned.
\<close>

fun serializeData :: "jsval \<Rightarrow> jsval" where
  "serializeData Undefined = Undefined"
| "serializeData Null = Null"
| "serializeData (Buf bs) = Obj [(''__type'', Str ''Buffer''), (''__data'', Str (toBase64 bs))]"
| "serializeData (Arr xs) = Arr (map serializeData xs)"
| "serializeData (Obj kvs) = Obj (assign_all (map (\<lambda>(k, v). (k, serializeData v)) kvs))"
| "serializeData v = v"




section \<open>utils.ts\<close>


subsection \<open>Shapes of payloads\<close>




section \<open>format.ts\<close>

definition MAGIC :: string where
  "MAGIC = ''MCREPLAY''"

definition VERSION :: nat where
  "VERSION = 1"

definition PACKET_IDS :: "(string \<times> nat) list" where
  "PACKET_IDS =
     [(''map_chunk'', 1), (''map_chunk_bulk'', 2), (''block_change'', 3),
      (''multi_block_change'', 4), (''named_entity_spawn'', 5), (''spawn_entity_living'', 6),
      (''spawn_entity'', 7), (''entity_velocity'', 8), (''entity_teleport'', 9),
      (''entity_move_look'', 10), (''rel_entity_move'', 11), (''entity_look'', 12),
      (''entity_head_rotation'', 13), (''entity_destroy'', 14), (''chat'', 15),
      (''player_info'', 16), (''update_sign'', 17), (''explosion'', 18),
      (''entity_equipment'', 19), (''player_abilities'', 20), (''entity_metadata'', 21)]"


record ReplayMetadata =
  spawnPosition :: "int \<times> int \<times> int"
  startTime :: int
  endTime :: int
  botUsername :: string
  mcVersion :: string

record PacketRecord =
  timestamp :: int
  name :: string
  data :: jsval

text \<open>The metadata object as the recorder builds it and the packer receives it.\<close>

definition metadata_object :: "ReplayMetadata \<Rightarrow> jsval" where
  "metadata_object m =
     (case spawnPosition m of (x, y, z) \<Rightarrow>
        Obj [(''spawnPosition'', Obj [(''x'', Num x), (''y'', Num y), (''z'', Num z)]),
             (''startTime'', Num (startTime m)),
             (''endTime'', Num (endTime m)),
             (''botUsername'', Str (botUsername m)),
             (''mcVersion'', Str (mcVersion m))])"

subsection \<open>Platform: buffers, streams and positional reads\<close>

text \<open>\<open>Buffer.from(s, "ascii")\<close> and \<open>buf.toString("ascii")\<close>; the latter clears bit 7.\<close>

definition ascii_bytes :: "string \<Rightarrow> byte list" where
  "ascii_bytes s = map (\<lambda>c. of_nat (of_char c)) s"


text \<open>\<open>writeUInt32LE\<close> throws a range error on a value that does not fit 32 bits.\<close>

definition writeUInt32LE :: "nat \<Rightarrow> error + byte list" where
  "writeUInt32LE n =
     (if n < 2 ^ 32
      then Inr [of_nat n, of_nat (n div 2 ^ 8), of_nat (n div 2 ^ 16), of_nat (n div 2 ^ 24)]
      else Inl OutOfRange)"


text \<open>
  An \<open>fs.WriteStream\<close>: the chunks written, in order; the file holds their concatenation.
  After \<open>end\<close> a \<open>write\<close> adds nothing to the file and the stream reports the error
  "write after end". Input and output themselves never fail in the model.
\<close>

record WriteStream =
  chunks :: "byte list list"
  ended :: bool
  write_after_end :: bool

definition createWriteStream :: WriteStream where
  "createWriteStream = \<lparr>chunks = [], ended = False, write_after_end = False\<rparr>"

definition stream_write :: "byte list \<Rightarrow> WriteStream \<Rightarrow> WriteStream" where
  "stream_write b s = (if ended s then s\<lparr>write_after_end := True\<rparr> else s\<lparr>chunks := chunks s @ [b]\<rparr>)"

definition stream_end :: "WriteStream \<Rightarrow> WriteStream" where
  "stream_end s = s\<lparr>ended := True\<rparr>"

definition file_contents :: "WriteStream \<Rightarrow> byte list" where
  "file_contents s = concat (chunks s)"

text \<open>
  The memory of a buffer, by index. \<open>Buffer.allocUnsafe\<close> returns memory that is not
  initialised: its contents are the parameter \<open>junk\<close> of the reader.
  \<open>fs.readSync(fd, buffer, 0, length, position)\<close> copies the bytes of the file that exist
  from \<open>position\<close> on, at most \<open>length\<close>, to the start of the buffer, leaves the rest of
  the buffer as it was, and returns how many it copied. Allocation and input never fail
  in the model.
\<close>

type_synonym memory = "nat \<Rightarrow> byte"

definition readSync :: "byte list \<Rightarrow> memory \<Rightarrow> nat \<Rightarrow> nat \<Rightarrow> memory \<times> nat" where
  "readSync file buffer len position =
     (let n = min len (length file - position)
      in ((\<lambda>i. if i < n then file ! (position + i) else buffer i), n))"


subsection \<open>The writers\<close>

text \<open>
  The fields the two writer classes share. A call returns the error it throws, if any,
  and the writer as the call leaves it.
\<close>

record Writer =
  bytesWritten :: nat
  packetCount :: nat
  headerWritten :: bool
  lastTimestamp :: int

record BinaryReplayWriter = Writer +
  stream :: WriteStream

definition new_BinaryReplayWriter :: BinaryReplayWriter where
  "new_BinaryReplayWriter =
     \<lparr>bytesWritten = 0, packetCount = 0, headerWritten = False, lastTimestamp = 0,
      stream = createWriteStream\<rparr>"

definition BinaryReplayWriter_writeHeader ::
  "BinaryReplayWriter \<Rightarrow> error option \<times> BinaryReplayWriter" where
  "BinaryReplayWriter_writeHeader w =
     (if headerWritten w then (Some HeaderAlreadyWritten, w)
      else
        let magicBuf = ascii_bytes MAGIC;
            w = w\<lparr>stream := stream_write magicBuf (stream w)\<rparr>;
            w = w\<lparr>bytesWritten := bytesWritten w + 8\<rparr>;
            versionBuf = [of_nat VERSION];
            w = w\<lparr>stream := stream_write versionBuf (stream w)\<rparr>;
            w = w\<lparr>bytesWritten := bytesWritten w + 1\<rparr>
        in (None, w\<lparr>headerWritten := True\<rparr>))"

definition BinaryReplayWriter_writePacket ::
  "(jsval \<Rightarrow> byte list) \<Rightarrow> PacketRecord \<Rightarrow> BinaryReplayWriter
     \<Rightarrow> error option \<times> BinaryReplayWriter" where
  "BinaryReplayWriter_writePacket packer record w =
     (if \<not> headerWritten w then (Some MustWriteHeader, w)
      else case map_of PACKET_IDS (name record) of
        None \<Rightarrow> (Some (UnknownPacketName (name record)), w)
      | Some packetId \<Rightarrow>
          let delta = timestamp record - lastTimestamp w;
              w = w\<lparr>lastTimestamp := timestamp record\<rparr>;
              timestampBuf = encodeVarint delta;
              w = w\<lparr>stream := stream_write timestampBuf (stream w)\<rparr>;
              w = w\<lparr>bytesWritten := bytesWritten w + length timestampBuf\<rparr>;
              packetIdBuf = [of_nat packetId];
              w = w\<lparr>stream := stream_write packetIdBuf (stream w)\<rparr>;
              w = w\<lparr>bytesWritten := bytesWritten w + 1\<rparr>;
              serialized = serializeData (data record);
              dataBuf = packer serialized
          in case writeUInt32LE (length dataBuf) of
               Inl e \<Rightarrow> (Some e, w)
             | Inr dataLengthBuf \<Rightarrow>
                 let w = w\<lparr>stream := stream_write dataLengthBuf (stream w)\<rparr>;
                     w = w\<lparr>stream := stream_write dataBuf (stream w)\<rparr>;
                     w = w\<lparr>bytesWritten := bytesWritten w + (4 + length dataBuf)\<rparr>
                 in (None, w\<lparr>packetCount := packetCount w + 1\<rparr>))"

definition BinaryReplayWriter_close ::
  "(jsval \<Rightarrow> byte list) \<Rightarrow> ReplayMetadata \<Rightarrow> BinaryReplayWriter
     \<Rightarrow> error option \<times> BinaryReplayWriter" where
  "BinaryReplayWriter_close packer metadata w =
     (let metadataBuf = packer (metadata_object metadata)
      in case writeUInt32LE (length metadataBuf) of
           Inl e \<Rightarrow> (Some e, w)
         | Inr metadataLengthBuf \<Rightarrow>
             let w = w\<lparr>stream := stream_write metadataBuf (stream w)\<rparr>;
                 w = w\<lparr>stream := stream_write metadataLengthBuf (stream w)\<rparr>;
                 w = w\<lparr>bytesWritten := bytesWritten w + (4 + length metadataBuf)\<rparr>
             in (None, w\<lparr>stream := stream_end (stream w)\<rparr>))"

text \<open>
  The memory writer keeps its chunks in \<open>buffers\<close>. With a callback (stream mode) every
  chunk is also handed to the callback at once: \<open>delivered\<close> is what the callback has
  received.
\<close>

record BinaryReplayMemoryWriter = Writer +
  buffers :: "byte list list"
  onPacketCallback :: bool
  delivered :: "byte list list"

definition new_BinaryReplayMemoryWriter :: "bool \<Rightarrow> BinaryReplayMemoryWriter" where
  "new_BinaryReplayMemoryWriter callback =
     \<lparr>bytesWritten = 0, packetCount = 0, headerWritten = False, lastTimestamp = 0,
      buffers = [], onPacketCallback = callback, delivered = []\<rparr>"

definition BinaryReplayMemoryWriter_write ::
  "byte list \<Rightarrow> BinaryReplayMemoryWriter \<Rightarrow> BinaryReplayMemoryWriter" where
  "BinaryReplayMemoryWriter_write buffer w =
     (let w = w\<lparr>buffers := buffers w @ [buffer]\<rparr>;
          w = w\<lparr>bytesWritten := bytesWritten w + length buffer\<rparr>
      in if onPacketCallback w then w\<lparr>delivered := delivered w @ [buffer]\<rparr> else w)"

definition BinaryReplayMemoryWriter_writeHeader ::
  "BinaryReplayMemoryWriter \<Rightarrow> error option \<times> BinaryReplayMemoryWriter" where
  "BinaryReplayMemoryWriter_writeHeader w =
     (if headerWritten w then (Some HeaderAlreadyWritten, w)
      else
        let magicBuf = ascii_bytes MAGIC;
            w = BinaryReplayMemoryWriter_write magicBuf w;
            versionBuf = [of_nat VERSION];
            w = BinaryReplayMemoryWriter_write versionBuf w
        in (None, w\<lparr>headerWritten := True\<rparr>))"

definition BinaryReplayMemoryWriter_writePacket ::
  "(jsval \<Rightarrow> byte list) \<Rightarrow> PacketRecord \<Rightarrow> BinaryReplayMemoryWriter
     \<Rightarrow> error option \<times> BinaryReplayMemoryWriter" where
  "BinaryReplayMemoryWriter_writePacket packer record w =
     (if \<not> headerWritten w then (Some MustWriteHeader, w)
      else case map_of PACKET_IDS (name record) of
        None \<Rightarrow> (Some (UnknownPacketName (name record)), w)
      | Some packetId \<Rightarrow>
          let delta = timestamp record - lastTimestamp w;
              w = w\<lparr>lastTimestamp := timestamp record\<rparr>;
              timestampBuf = encodeVarint delta;
              w = BinaryReplayMemoryWriter_write timestampBuf w;
              packetIdBuf = [of_nat packetId];
              w = BinaryReplayMemoryWriter_write packetIdBuf w;
              serialized = serializeData (data record);
              dataBuf = packer serialized
          in case writeUInt32LE (length dataBuf) of
               Inl e \<Rightarrow> (Some e, w)
             | Inr dataLengthBuf \<Rightarrow>
                 let w = BinaryReplayMemoryWriter_write dataLengthBuf w;
                     w = BinaryReplayMemoryWriter_write dataBuf w
                 in (None, w\<lparr>packetCount := packetCount w + 1\<rparr>))"

definition BinaryReplayMemoryWriter_close ::
  "(jsval \<Rightarrow> byte list) \<Rightarrow> ReplayMetadata \<Rightarrow> BinaryReplayMemoryWriter
     \<Rightarrow> error option \<times> BinaryReplayMemoryWriter" where
  "BinaryReplayMemoryWriter_close packer metadata w =
     (let metadataBuf = packer (metadata_object metadata)
      in case writeUInt32LE (length metadataBuf) of
           Inl e \<Rightarrow> (Some e, w)
         | Inr metadataLengthBuf \<Rightarrow>
             let w = BinaryReplayMemoryWriter_write metadataBuf w;
                 w = BinaryReplayMemoryWriter_write metadataLengthBuf w
             in (None, w))"

definition getBuffer :: "BinaryReplayMemoryWriter \<Rightarrow> byte list" where
  "getBuffer w = concat (buffers w)"

text \<open>
  A sequence of calls on a writer: each call is made whatever the calls before it threw;
  the result is the list of what the calls threw and the writer at the end.
\<close>

datatype writer_call = WriteHeader | WritePacket PacketRecord | Close ReplayMetadata

fun is_Close :: "writer_call \<Rightarrow> bool" where
  "is_Close (Close m) = True"
| "is_Close c = False"

fun BinaryReplayWriter_call ::
  "(jsval \<Rightarrow> byte list) \<Rightarrow> writer_call \<Rightarrow> BinaryReplayWriter
     \<Rightarrow> error option \<times> BinaryReplayWriter" where
  "BinaryReplayWriter_call packer WriteHeader w = BinaryReplayWriter_writeHeader w"
| "BinaryReplayWriter_call packer (WritePacket r) w = BinaryReplayWriter_writePacket packer r w"
| "BinaryReplayWriter_call packer (Close m) w = BinaryReplayWriter_close packer m w"

fun BinaryReplayMemoryWriter_call ::
  "(jsval \<Rightarrow> byte list) \<Rightarrow> writer_call \<Rightarrow> BinaryReplayMemoryWriter
     \<Rightarrow> error option \<times> BinaryReplayMemoryWriter" where
  "BinaryReplayMemoryWriter_call packer WriteHeader w = BinaryReplayMemoryWriter_writeHeader w"
| "BinaryReplayMemoryWriter_call packer (WritePacket r) w =
     BinaryReplayMemoryWriter_writePacket packer r w"
| "BinaryReplayMemoryWriter_call packer (Close m) w = BinaryReplayMemoryWriter_close packer m w"

fun run_calls ::
  "(writer_call \<Rightarrow> 'w \<Rightarrow> error option \<times> 'w) \<Rightarrow> writer_call list \<Rightarrow> 'w
     \<Rightarrow> error option list \<times> 'w" where
  "run_calls call [] w = ([], w)"
| "run_calls call (c # cs) w =
     (case call c w of (e, w') \<Rightarrow> (case run_calls call cs w' of (es, w'') \<Rightarrow> (e # es, w'')))"

subsection \<open>The reader\<close>









subsection \<open>Relating the file writer and the memory writer\<close>

text \<open>
  \<open>sim\<close>: the two writers have had the same calls and the file is still open.
  \<open>same_output\<close>: they hold the same chunks, and in stream mode the callback has
  received every one of them.
\<close>

definition sim :: "BinaryReplayWriter \<Rightarrow> BinaryReplayMemoryWriter \<Rightarrow> bool" where
  "sim fw mw =
     (bytesWritten fw = bytesWritten mw \<and> packetCount fw = packetCount mw
      \<and> headerWritten fw = headerWritten mw \<and> lastTimestamp fw = lastTimestamp mw
      \<and> chunks (stream fw) = buffers mw \<and> \<not> ended (stream fw)
      \<and> (if onPacketCallback mw then delivered mw = buffers mw else delivered mw = []))"

definition same_output :: "BinaryReplayWriter \<Rightarrow> BinaryReplayMemoryWriter \<Rightarrow> bool" where
  "same_output fw mw =
     (chunks (stream fw) = buffers mw
      \<and> (if onPacketCallback mw then delivered mw = buffers mw else delivered mw = []))"


subsection \<open>The bytes of a recording\<close>







subsection \<open>A codec for worked examples\<close>







section \<open>server.ts: the replay player\<close>

text \<open>
  Numbers that hold times and speeds are real numbers. \<open>Date.now()\<close> is an oracle: its
  \<open>n\<close>-th reading is \<open>now n\<close>, and the player counts the readings. Events the player
  emits are appended to \<open>emitted\<close>; listeners are outside the model (an \<open>error\<close>
  listener is taken to be attached, so that emitting \<open>error\<close> does not throw).
  \<open>client.write\<close> throws exactly when \<open>rejects\<close> holds of the client's id, the packet
  name and the data.
\<close>

datatype event =
    PlaybackStart real
  | PlaybackPause real
  | PlaybackSeek real real
  | PlaybackSpeed real real
  | PlaybackEnd
  | PlaybackProgress nat nat real
  | ErrorEvent error string

record Client =
  username :: string
  uuid :: string
  written :: "(string \<times> jsval) list"

record ReplayPlayer =
  metadata :: "ReplayMetadata option"
  packets :: "PacketRecord list"
  clients :: "(nat \<times> Client) list"
  playing :: bool
  currentTime :: real
  playbackSpeed :: real
  packetIndex :: nat
  startRealTime :: real
  recentPackets :: "PacketRecord list"
  maxRecentPackets :: nat
  worldState :: "(string \<times> PacketRecord list) list"
  activeEntityIds :: "jsval list"
  chunkMap :: "(string \<times> PacketRecord) list"
  emitted :: "event list"
  clock_reads :: nat
  scheduled_loops :: nat

definition emit :: "event \<Rightarrow> ReplayPlayer \<Rightarrow> ReplayPlayer" where
  "emit e s = s\<lparr>emitted := emitted s @ [e]\<rparr>"

subsection \<open>Values as the tracking code reads them\<close>

text \<open>
  \<open>value.key\<close> for the keys the player reads (\<open>entityId\<close>, \<open>entityIds\<close>, \<open>x\<close>, \<open>z\<close>):
  a type error on \<open>null\<close> and \<open>undefined\<close>, the property on an object, \<open>undefined\<close> on
  a value of any other kind.
\<close>

definition get_field :: "jsval \<Rightarrow> string \<Rightarrow> error + jsval" where
  "get_field v k =
     (case v of
        Undefined \<Rightarrow> Inl TypeError
      | Null \<Rightarrow> Inl TypeError
      | Obj kvs \<Rightarrow> Inr (property kvs k)
      | _ \<Rightarrow> Inr Undefined)"

text \<open>
  The text a value takes in a template literal. Integers print in decimal; an array
  prints its elements separated by commas, \<open>null\<close> and \<open>undefined\<close> as nothing; a
  \<open>Buffer\<close> prints its bytes as text.
\<close>

fun join_comma :: "string list \<Rightarrow> string" where
  "join_comma [] = []"
| "join_comma [s] = s"
| "join_comma (s # t # ss) = s @ '','' @ join_comma (t # ss)"

fun js_to_string :: "jsval \<Rightarrow> string" where
  "js_to_string Undefined = ''undefined''"
| "js_to_string Null = ''null''"
| "js_to_string (Bool b) = (if b then ''true'' else ''false'')"
| "js_to_string (Num n) = (if n < 0 then ''-'' @ decimal (nat (- n)) else decimal (nat n))"
| "js_to_string (Str s) = s"
| "js_to_string (Buf bs) = map (\<lambda>b. char_of (unat b)) bs"
| "js_to_string (Arr xs) =
     join_comma (map (\<lambda>x. if x = Null \<or> x = Undefined then [] else js_to_string x) xs)"
| "js_to_string (Obj kvs) = ''[object Object]''"

text \<open>
  A \<open>Set\<close> in insertion order. Members are compared by value, as the \<open>Set\<close> compares
  numbers, strings, booleans and \<open>null\<close>.
\<close>

definition set_add :: "jsval \<Rightarrow> jsval list \<Rightarrow> jsval list" where
  "set_add v vs = (if v \<in> set vs then vs else vs @ [v])"

definition set_delete :: "jsval \<Rightarrow> jsval list \<Rightarrow> jsval list" where
  "set_delete v vs = removeAll v vs"

text \<open>\<open>map.get(key).push(packet)\<close>, after \<open>map.set(key, [])\<close> when the key is new.\<close>

definition push_to :: "string \<Rightarrow> PacketRecord \<Rightarrow> (string \<times> PacketRecord list) list
    \<Rightarrow> (string \<times> PacketRecord list) list" where
  "push_to k packet m =
     (case map_of m k of
        None \<Rightarrow> AList.update k [packet] m
      | Some packetList \<Rightarrow> AList.update k (packetList @ [packet]) m)"

subsection \<open>\<open>trackWorldStatePacket\<close>\<close>

definition statePacketTypes :: "string list" where
  "statePacketTypes = [''named_entity_spawn'', ''spawn_entity_living'', ''spawn_entity'', ''player_info'']"

text \<open>
  The three statements of \<open>trackWorldStatePacket\<close>, in order: the entity ids, the
  chunks, the per-name logs. A type error leaves the player as it was, since each
  statement reads \<open>packet.data\<close> before it changes anything.
\<close>

definition track_entities :: "PacketRecord \<Rightarrow> ReplayPlayer \<Rightarrow> error + ReplayPlayer" where
  "track_entities packet s =
     (if name packet = ''named_entity_spawn'' \<or> name packet = ''spawn_entity_living''
         \<or> name packet = ''spawn_entity''
      then (case get_field (data packet) ''entityId'' of
              Inl e \<Rightarrow> Inl e
            | Inr entityId \<Rightarrow>
                if entityId \<noteq> Undefined
                then Inr (s\<lparr>activeEntityIds := set_add entityId (activeEntityIds s)\<rparr>)
                else Inr s)
      else if name packet = ''entity_destroy''
      then (case get_field (data packet) ''entityIds'' of
              Inl e \<Rightarrow> Inl e
            | Inr (Arr ids) \<Rightarrow> Inr (s\<lparr>activeEntityIds := fold set_delete ids (activeEntityIds s)\<rparr>)
            | Inr _ \<Rightarrow> Inr s)
      else Inr s)"

definition track_chunks :: "PacketRecord \<Rightarrow> ReplayPlayer \<Rightarrow> error + ReplayPlayer" where
  "track_chunks packet s =
     (if name packet = ''map_chunk''
      then (case get_field (data packet) ''x'' of
              Inl e \<Rightarrow> Inl e
            | Inr x \<Rightarrow>
                if x \<noteq> Undefined
                then (case get_field (data packet) ''z'' of
                        Inl e \<Rightarrow> Inl e
                      | Inr z \<Rightarrow>
                          if z \<noteq> Undefined
                          then let chunkKey = js_to_string x @ '','' @ js_to_string z
                               in Inr (s\<lparr>chunkMap := AList.update chunkKey packet (chunkMap s)\<rparr>)
                          else Inr s)
                else Inr s)
      else if name packet = ''map_chunk_bulk''
      then Inr (s\<lparr>worldState := push_to ''map_chunk_bulk'' packet (worldState s)\<rparr>)
      else Inr s)"

definition track_state :: "PacketRecord \<Rightarrow> ReplayPlayer \<Rightarrow> ReplayPlayer" where
  "track_state packet s =
     (if name packet \<in> set statePacketTypes
      then s\<lparr>worldState := push_to (name packet) packet (worldState s)\<rparr>
      else s)"

definition trackWorldStatePacket :: "PacketRecord \<Rightarrow> ReplayPlayer \<Rightarrow> error + ReplayPlayer" where
  "trackWorldStatePacket packet s =
     (case track_entities packet s of
        Inl e \<Rightarrow> Inl e
      | Inr s1 \<Rightarrow>
          (case track_chunks packet s1 of
             Inl e \<Rightarrow> Inl e
           | Inr s2 \<Rightarrow> Inr (track_state packet s2)))"

subsection \<open>Writing to viewers\<close>

definition client_write ::
  "(nat \<Rightarrow> string \<Rightarrow> jsval \<Rightarrow> bool) \<Rightarrow> nat \<Rightarrow> string \<Rightarrow> jsval \<Rightarrow> Client \<Rightarrow> error + Client" where
  "client_write rejects cid packet_name packet_data c =
     (if rejects cid packet_name packet_data then Inl ClientWriteError
      else Inr (c\<lparr>written := written c @ [(packet_name, packet_data)]\<rparr>))"

text \<open>
  A loop of \<open>try { client.write(packet.name, packet.data) } catch { emit("error", ...) }\<close>
  over a list of packets, for one client; \<open>tag\<close> is the prefix of the context.
\<close>

fun write_packets ::
  "(nat \<Rightarrow> string \<Rightarrow> jsval \<Rightarrow> bool) \<Rightarrow> string \<Rightarrow> nat \<Rightarrow> PacketRecord list
     \<Rightarrow> Client \<times> event list \<Rightarrow> Client \<times> event list" where
  "write_packets rejects tag cid [] (c, evs) = (c, evs)"
| "write_packets rejects tag cid (packet # rest) (c, evs) =
     (case client_write rejects cid (name packet) (data packet) c of
        Inl e \<Rightarrow> write_packets rejects tag cid rest (c, evs @ [ErrorEvent e (tag @ name packet)])
      | Inr c' \<Rightarrow> write_packets rejects tag cid rest (c', evs))"

subsection \<open>\<open>replayPacket\<close>\<close>

text \<open>The loop over the clients of \<open>replayPacket\<close>: one write each, errors reported.\<close>

fun write_to_clients ::
  "(nat \<Rightarrow> string \<Rightarrow> jsval \<Rightarrow> bool) \<Rightarrow> PacketRecord \<Rightarrow> (nat \<times> Client) list
     \<Rightarrow> (nat \<times> Client) list \<times> event list" where
  "write_to_clients rejects packet [] = ([], [])"
| "write_to_clients rejects packet ((cid, c) # rest) =
     (case write_packets rejects ''packet_replay:'' cid [packet] (c, []) of (c', evs) \<Rightarrow>
        (case write_to_clients rejects packet rest of (rest', evs') \<Rightarrow>
           ((cid, c') # rest', evs @ evs')))"

text \<open>
  \<open>replayPacket\<close> returns the error it throws, if any, and the player as the call
  leaves it: the type error of \<open>trackWorldStatePacket\<close> comes after the push onto
  \<open>recentPackets\<close>.
\<close>

definition replayPacket ::
  "(nat \<Rightarrow> string \<Rightarrow> jsval \<Rightarrow> bool) \<Rightarrow> PacketRecord \<Rightarrow> ReplayPlayer
     \<Rightarrow> error option \<times> ReplayPlayer" where
  "replayPacket rejects packet s =
     (let s = s\<lparr>recentPackets := recentPackets s @ [packet]\<rparr>;
          s = (if length (recentPackets s) > maxRecentPackets s
               then s\<lparr>recentPackets := tl (recentPackets s)\<rparr> else s)
      in case trackWorldStatePacket packet s of
           Inl e \<Rightarrow> (Some e, s)
         | Inr s \<Rightarrow>
             (case write_to_clients rejects packet (clients s) of (cs, evs) \<Rightarrow>
                (None, s\<lparr>clients := cs, emitted := emitted s @ evs\<rparr>)))"

subsection \<open>\<open>syncClientToCurrentState\<close>\<close>

definition respawn_data :: "int \<Rightarrow> jsval" where
  "respawn_data dimension =
     Obj [(''dimension'', Num dimension), (''difficulty'', Num 2), (''gamemode'', Num 3),
          (''levelType'', Str ''default'')]"

definition spawn_position_data :: "int \<times> int \<times> int \<Rightarrow> jsval" where
  "spawn_position_data p =
     (case p of (x, y, z) \<Rightarrow> Obj [(''location'', Obj [(''x'', Num x), (''y'', Num y), (''z'', Num z)])])"

definition position_data :: "int \<times> int \<times> int \<Rightarrow> jsval" where
  "position_data p =
     (case p of (x, y, z) \<Rightarrow>
        Obj [(''x'', Num x), (''y'', Num y), (''z'', Num z), (''yaw'', Num 0), (''pitch'', Num 0),
             (''flags'', Num 0)])"

text \<open>
  The writes of the dimension switch are in one \<open>try\<close>: the first that throws ends the
  block.
\<close>

fun write_until_error ::
  "(nat \<Rightarrow> string \<Rightarrow> jsval \<Rightarrow> bool) \<Rightarrow> nat \<Rightarrow> (string \<times> jsval) list \<Rightarrow> Client
     \<Rightarrow> error option \<times> Client" where
  "write_until_error rejects cid [] c = (None, c)"
| "write_until_error rejects cid ((n, d) # rest) c =
     (case client_write rejects cid n d c of
        Inl e \<Rightarrow> (Some e, c)
      | Inr c' \<Rightarrow> write_until_error rejects cid rest c')"

definition worldState_get :: "ReplayPlayer \<Rightarrow> string \<Rightarrow> PacketRecord list" where
  "worldState_get s k = (case map_of (worldState s) k of None \<Rightarrow> [] | Some l \<Rightarrow> l)"

definition syncClientToCurrentState ::
  "(nat \<Rightarrow> string \<Rightarrow> jsval \<Rightarrow> bool) \<Rightarrow> nat \<Rightarrow> bool \<Rightarrow> ReplayPlayer \<Rightarrow> Client \<times> event list
     \<Rightarrow> Client \<times> event list" where
  "syncClientToCurrentState rejects cid clearEntities s client =
     (let client =
            (if clearEntities
             then (case client of (c, evs) \<Rightarrow>
                     (case write_until_error rejects cid
                             ([(''respawn'', respawn_data (- 1)), (''respawn'', respawn_data 0)]
                              @ (case metadata s of
                                   None \<Rightarrow> []
                                 | Some m \<Rightarrow>
                                     [(''spawn_position'', spawn_position_data (spawnPosition m)),
                                      (''position'', position_data (spawnPosition m))])) c of
                        (None, c') \<Rightarrow> (c', evs)
                      | (Some e, c') \<Rightarrow> (c', evs @ [ErrorEvent e ''dimension_switch''])))
             else client);
          chunkPackets = map snd (chunkMap s);
          chunkBulkPackets = worldState_get s ''map_chunk_bulk'';
          playerInfoPackets = worldState_get s ''player_info'';
          entitySpawnPackets =
            worldState_get s ''named_entity_spawn'' @ worldState_get s ''spawn_entity_living''
              @ worldState_get s ''spawn_entity'';
          client = write_packets rejects ''sync:'' cid (chunkPackets @ chunkBulkPackets) client;
          client = write_packets rejects ''sync:'' cid playerInfoPackets client;
          client = write_packets rejects ''sync:'' cid entitySpawnPackets client
      in if \<not> clearEntities
         then write_packets rejects ''sync:'' cid (recentPackets s) client
         else client)"

text \<open>\<open>for (const client of this.clients.values()) this.syncClientToCurrentState(client, true)\<close>\<close>

fun sync_clients ::
  "(nat \<Rightarrow> string \<Rightarrow> jsval \<Rightarrow> bool) \<Rightarrow> ReplayPlayer \<Rightarrow> (nat \<times> Client) list
     \<Rightarrow> (nat \<times> Client) list \<times> event list" where
  "sync_clients rejects s [] = ([], [])"
| "sync_clients rejects s ((cid, c) # rest) =
     (case syncClientToCurrentState rejects cid True s (c, []) of (c', evs) \<Rightarrow>
        (case sync_clients rejects s rest of (rest', evs') \<Rightarrow> ((cid, c') # rest', evs @ evs')))"

subsection \<open>Playback\<close>

definition pausePlayback :: "ReplayPlayer \<Rightarrow> ReplayPlayer" where
  "pausePlayback s =
     (if \<not> playing s then s
      else let s = s\<lparr>playing := False\<rparr> in emit (PlaybackPause (currentTime s)) s)"

text \<open>
  The \<open>while\<close> loop of \<open>playbackLoop\<close> over the packets from \<open>packetIndex\<close> on (the
  list \<open>due\<close>); \<open>n\<close> is \<open>packetsProcessed\<close>. \<open>replayPacket\<close> changes neither \<open>packets\<close>
  nor \<open>packetIndex\<close>, so the packet at \<open>packetIndex\<close> is the head of the list.
\<close>

fun playbackLoop_while ::
  "(nat \<Rightarrow> string \<Rightarrow> jsval \<Rightarrow> bool) \<Rightarrow> PacketRecord list \<Rightarrow> nat \<Rightarrow> ReplayPlayer
     \<Rightarrow> error option \<times> nat \<times> ReplayPlayer" where
  "playbackLoop_while rejects [] n s = (None, n, s)"
| "playbackLoop_while rejects (packet # due) n s =
     (if real_of_int (timestamp packet) > currentTime s then (None, n, s)
      else case replayPacket rejects packet s of
             (Some e, s') \<Rightarrow> (Some e, n, s')
           | (None, s') \<Rightarrow>
               playbackLoop_while rejects due (n + 1) (s'\<lparr>packetIndex := packetIndex s' + 1\<rparr>))"

definition playbackLoop ::
  "(nat \<Rightarrow> string \<Rightarrow> jsval \<Rightarrow> bool) \<Rightarrow> (nat \<Rightarrow> real) \<Rightarrow> ReplayPlayer \<Rightarrow> error option \<times> ReplayPlayer" where
  "playbackLoop rejects now s =
     (if \<not> playing s then (None, s)
      else
        let realElapsed = (now (clock_reads s) - startRealTime s) * playbackSpeed s;
            s = s\<lparr>clock_reads := clock_reads s + 1\<rparr>;
            s = s\<lparr>currentTime := realElapsed\<rparr>
        in case playbackLoop_while rejects (drop (packetIndex s) (packets s)) 0 s of
             (Some e, packetsProcessed, s) \<Rightarrow> (Some e, s)
           | (None, packetsProcessed, s) \<Rightarrow>
               let s = (if packetsProcessed > 0 \<and> packetIndex s mod 100 = 0
                        then emit (PlaybackProgress (packetIndex s) (length (packets s)) (currentTime s)) s
                        else s)
               in if packetIndex s \<ge> length (packets s)
                  then (None, emit PlaybackEnd (s\<lparr>playing := False\<rparr>))
                  else (None, s\<lparr>scheduled_loops := scheduled_loops s + 1\<rparr>))"

definition startPlayback ::
  "(nat \<Rightarrow> string \<Rightarrow> jsval \<Rightarrow> bool) \<Rightarrow> (nat \<Rightarrow> real) \<Rightarrow> ReplayPlayer \<Rightarrow> error option \<times> ReplayPlayer" where
  "startPlayback rejects now s =
     (if playing s then (None, s)
      else
        let s = s\<lparr>playing := True\<rparr>;
            s = s\<lparr>startRealTime := now (clock_reads s) - currentTime s / playbackSpeed s,
                  clock_reads := clock_reads s + 1\<rparr>;
            s = emit (PlaybackStart (currentTime s)) s
        in playbackLoop rejects now s)"

definition setPlaybackSpeed ::
  "(nat \<Rightarrow> string \<Rightarrow> jsval \<Rightarrow> bool) \<Rightarrow> (nat \<Rightarrow> real) \<Rightarrow> real \<Rightarrow> ReplayPlayer
     \<Rightarrow> error option \<times> ReplayPlayer" where
  "setPlaybackSpeed rejects now speed s =
     (let wasPlaying = playing s;
          s = (if wasPlaying then pausePlayback s else s);
          s = s\<lparr>playbackSpeed := max 0.1 (min 10 speed)\<rparr>;
          s = emit (PlaybackSpeed (playbackSpeed s) speed) s
      in if wasPlaying then startPlayback rejects now s else (None, s))"

text \<open>
  The \<open>for\<close> loop of \<open>seekToTime\<close> over the packets, \<open>i\<close> the index of the head of the
  list: \<open>newIndex\<close> is assigned at the \<open>break\<close> only and is 0 when the loop runs to the
  end of the packets.
\<close>

fun seek_scan ::
  "real \<Rightarrow> PacketRecord list \<Rightarrow> nat \<Rightarrow> ReplayPlayer \<Rightarrow> error option \<times> nat \<times> ReplayPlayer" where
  "seek_scan targetTime [] i s = (None, 0, s)"
| "seek_scan targetTime (packet # rest) i s =
     (if real_of_int (timestamp packet) > targetTime then (None, i, s)
      else case trackWorldStatePacket packet s of
             Inl e \<Rightarrow> (Some e, 0, s)
           | Inr s' \<Rightarrow> seek_scan targetTime rest (i + 1) s')"

definition seekToTime ::
  "(nat \<Rightarrow> string \<Rightarrow> jsval \<Rightarrow> bool) \<Rightarrow> (nat \<Rightarrow> real) \<Rightarrow> real \<Rightarrow> ReplayPlayer
     \<Rightarrow> error option \<times> ReplayPlayer" where
  "seekToTime rejects now targetTime s =
     (let wasPlaying = playing s;
          fromTime = currentTime s;
          s = (if wasPlaying then pausePlayback s else s);
          maxTime = (case metadata s of
                       None \<Rightarrow> 0
                     | Some m \<Rightarrow> real_of_int (endTime m) - real_of_int (startTime m));
          targetTime = max 0 (min maxTime targetTime);
          s = s\<lparr>currentTime := targetTime, recentPackets := [], worldState := [],
                activeEntityIds := [], chunkMap := []\<rparr>
      in case seek_scan targetTime (packets s) 0 s of
           (Some e, newIndex, s) \<Rightarrow> (Some e, s)
         | (None, newIndex, s) \<Rightarrow>
             let s = s\<lparr>packetIndex := newIndex\<rparr>;
                 s = emit (PlaybackSeek fromTime targetTime) s;
                 s = (case sync_clients rejects s (clients s) of (cs, evs) \<Rightarrow>
                        s\<lparr>clients := cs, emitted := emitted s @ evs\<rparr>)
             in if wasPlaying then startPlayback rejects now s else (None, s))"

text \<open>A player as constructed, and after \<open>initialize\<close> has stored the metadata and the packets.\<close>

definition new_ReplayPlayer :: ReplayPlayer where
  "new_ReplayPlayer =
     \<lparr>metadata = None, packets = [], clients = [], playing = False, currentTime = 0,
      playbackSpeed = 1, packetIndex = 0, startRealTime = 0, recentPackets = [],
      maxRecentPackets = 1000, worldState = [], activeEntityIds = [], chunkMap = [],
      emitted = [], clock_reads = 0, scheduled_loops = 0\<rparr>"

definition loaded_ReplayPlayer :: "ReplayMetadata \<Rightarrow> PacketRecord list \<Rightarrow> ReplayPlayer" where
  "loaded_ReplayPlayer m ps = new_ReplayPlayer\<lparr>metadata := Some m, packets := ps\<rparr>"


subsection \<open>The projection and its rebuild\<close>




section \<open>Proofs: the varint codec\<close>

subsection \<open>Word arithmetic of one group of seven bits\<close>

lemma int_or_push: 
  fixes a x :: int
  assumes "0 \<le> a" "a < 2 ^ s"
  shows "a OR push_bit s x = a + x * 2 ^ s"
proof -
  have t: "take_bit s a = a" using assms by (simp add: take_bit_int_eq_self)
  have "a AND push_bit s x = 0"
  proof (rule bit_eqI)
    fix n
    have "bit a n = bit (take_bit s a) n" by (simp only: t)
    then show "bit (a AND push_bit s x) n = bit (0::int) n"
      by (auto simp: bit_and_iff bit_push_bit_iff bit_take_bit_iff)
  qed
  then have "a + push_bit s x = a OR push_bit s x" by (rule disjunctive_add_eq_or)
  then show ?thesis by (simp add: push_bit_eq_mult)
qed

lemma word_or_push:
  assumes "uint (acc :: 32 word) < 2 ^ s" "0 \<le> x" "uint acc + x * 2 ^ s < 2 ^ 32"
  shows "uint (acc OR push_bit s (word_of_int x)) = uint acc + x * 2 ^ s"
proof -
  have i: "uint acc OR push_bit s x = uint acc + x * 2 ^ s"
    using assms(1) by (intro int_or_push) simp_all
  have "acc OR push_bit s (word_of_int x) = word_of_int (uint acc OR push_bit s x)"
    by (simp add: of_int_or_eq of_int_push_bit)
  then have e: "acc OR push_bit s (word_of_int x) = word_of_int (uint acc + x * 2 ^ s)"
    by (simp only: i)
  have "uint (word_of_int (uint acc + x * 2 ^ s) :: 32 word) = take_bit 32 (uint acc + x * 2 ^ s)"
    by (simp only: uint_word_of_int_eq) simp
  also have "\<dots> = uint acc + x * 2 ^ s"
    using assms by (intro take_bit_int_eq_self) simp_all
  finally show ?thesis by (simp only: e)
qed

lemma sint_small: "uint (w :: 32 word) < 2 ^ 31 \<Longrightarrow> sint w = uint w"
proof -
  assume a: "uint w < 2 ^ 31"
  have "- (2 ^ 31) \<le> (0::int)" by simp
  also have "0 \<le> uint w" by simp
  finally have "- (2 ^ 31) \<le> uint w" .
  then have "signed_take_bit 31 (uint w) = uint w"
    using a by (rule signed_take_bit_int_eq_self)
  then show ?thesis by (simp add: sint_uint)
qed

lemma m7: "(0x7F :: 'a::len word) = mask 7" by (simp add: mask_eq_exp_minus_1)

lemma b128: "bit (128 :: 'a::len word) n = (n = 7 \<and> 7 < LENGTH('a))"
  using bit_exp_iff [where ?'a = "'a word", of 7 n] by (auto simp: possible_bit_word)

lemma b128i: "bit (128 :: int) n = (n = 7)"
  using bit_exp_iff [where ?'a = int, of 7 n] by auto

lemma b128n: "bit (128 :: nat) n = (n = 7)"
  using bit_exp_iff [where ?'a = nat, of 7 n] by auto

lemma cont_byte_low: "ucast ((ucast ((w AND 0x7F) OR 0x80) :: 8 word) AND 0x7F) = (w AND 0x7F :: 32 word)"
  unfolding m7
  by (rule bit_word_eqI) (auto simp: bit_simps b128 b128i b128n)

lemma cont_byte_flag: "(ucast (((w::32 word) AND 0x7F) OR 0x80) :: 8 word) AND 0x80 \<noteq> 0"
proof -
  have "bit ((ucast (((w::32 word) AND 0x7F) OR 0x80) :: 8 word) AND 0x80) 7"
    unfolding m7 by (auto simp: bit_simps b128 b128i b128n)
  then show ?thesis by force
qed

lemma last_byte_low: "ucast ((ucast (w AND 0x7F) :: 8 word) AND 0x7F) = (w AND 0x7F :: 32 word)"
  unfolding m7
  by (rule bit_word_eqI) (auto simp: bit_simps b128 b128i b128n)

lemma last_byte_flag: "(ucast ((w :: 32 word) AND 0x7F) :: 8 word) AND 0x80 = 0"
  unfolding m7
  by (rule bit_word_eqI) (auto simp: bit_simps b128 b128i b128n)

lemma low7_of_int: "(word_of_int v :: 32 word) AND 0x7F = word_of_int (v mod 128)"
  unfolding m7
  by (rule bit_word_eqI) (auto simp: bit_simps simp flip: take_bit_eq_mod[of 7 v, simplified])

lemma uint_shr7: "uint (drop_bit 7 (word_of_int v :: 32 word)) = (v mod 2 ^ 32) div 2 ^ 7"
proof -
  have "uint (drop_bit 7 (word_of_int v :: 32 word))
          = drop_bit 7 (take_bit 32 (uint (word_of_int v :: 32 word)))"
    using unsigned_drop_bit_eq [where 'a = int and 'b = 32 and n = 7 and w = "word_of_int v"]
    by simp
  also have "\<dots> = drop_bit 7 (take_bit 32 v)"
    by (simp add: uint_word_of_int_eq)
  also have "\<dots> = (v mod 2 ^ 32) div 2 ^ 7"
    by (simp only: drop_bit_eq_div take_bit_eq_mod)
  finally show ?thesis .
qed

lemma encodeVarint_cont:
  "128 \<le> v \<Longrightarrow> v < 2 ^ 32 \<Longrightarrow>
   encodeVarint v = ucast (((word_of_int v :: 32 word) AND 0x7F) OR 0x80) # encodeVarint (v div 128)"
  by (subst encodeVarint.simps) (simp add: uint_shr7 del: drop_bit_eq_div)

lemma encodeVarint_last:
  "v < 128 \<Longrightarrow> encodeVarint v = [ucast ((word_of_int v :: 32 word) AND 0x7F)]"
  by (subst encodeVarint.simps) simp


lemma decode_encode_loop:
  assumes "0 \<le> v" "uint acc < 2 ^ s" "uint acc + v * 2 ^ s < 2 ^ 31" "offset + k = length pre"
  shows "decodeVarint_loop (pre @ encodeVarint v @ post) offset acc s k
           = Inr (uint acc + v * 2 ^ s, k + length (encodeVarint v))"
  using assms
proof (induction v arbitrary: acc s k pre rule: encodeVarint.induct)
  case (1 v)
  have pos: "(0::int) < 2 ^ s" by simp
  have vle: "v \<le> v * 2 ^ s" using 1(2) pos by (simp add: mult_le_cancel_left1) 
  have v31: "v < 2 ^ 31" using vle 1(4) uint_ge_0 [of acc] by linarith
  show ?case
  proof (cases "128 \<le> v")
    case True
    let ?b = "ucast (((word_of_int v :: 32 word) AND 0x7F) OR 0x80) :: byte"
    let ?x = "v mod 128"
    have enc: "encodeVarint v = ?b # encodeVarint (v div 128)"
      using True v31 by (intro encodeVarint_cont) simp_all
    have "(128::int) * 2 ^ s \<le> v * 2 ^ s" using True by (intro mult_right_mono) simp_all
    moreover have p7: "(2::int) ^ (s + 7) = 128 * 2 ^ s" by (simp add: power_add)
    ultimately have "(2::int) ^ (s + 7) < 2 ^ 31" using 1(4) uint_ge_0 [of acc] by linarith
    then have s24: "s + 7 < 31"
      using power_strict_increasing_iff [of "2::int" "s + 7" 31] by simp
    then have smod: "s mod 32 = s" by simp
    have low: "ucast (?b AND 0x7F) = (word_of_int ?x :: 32 word)"
      by (simp only: cont_byte_low) (simp only: low7_of_int)
    have x: "0 \<le> ?x" "?x < 128" by simp_all
    have xs: "?x * 2 ^ s \<le> 127 * 2 ^ s" using x by (intro mult_right_mono) simp_all
    have split: "v * 2 ^ s = ?x * 2 ^ s + (v div 128) * 2 ^ (s + 7)"
    proof -
      have e: "(r + q * 128) * 2 ^ s = r * 2 ^ s + q * 2 ^ (s + 7)" for r q :: int
        by (simp add: power_add algebra_simps)
      have "v = ?x + (v div 128) * 128" by simp
      then have "v * 2 ^ s = (?x + (v div 128) * 128) * 2 ^ s"
        by (rule arg_cong [where f = "\<lambda>z. z * 2 ^ s"])
      with e [of ?x "v div 128"] show ?thesis by (simp only:)
    qed
    have "(0::int) \<le> (v div 128) * 2 ^ (s + 7)" using 1(2) by (simp add: pos_imp_zdiv_nonneg_iff)
    then have lt32: "uint acc + ?x * 2 ^ s < 2 ^ 32" using 1(4) split by simp
    let ?acc' = "acc OR push_bit s (word_of_int ?x)"
    have u': "uint ?acc' = uint acc + ?x * 2 ^ s"
      using 1(3) x(1) lt32 by (rule word_or_push)
    have b1: "uint ?acc' < 2 ^ (s + 7)"
      using u' 1(3) xs p7 by linarith
    have b2: "uint ?acc' + (v div 128) * 2 ^ (s + 7) < 2 ^ 31"
      using u' split 1(4) by simp
    have ih: "decodeVarint_loop ((pre @ [?b]) @ encodeVarint (v div 128) @ post) offset ?acc' (s + 7) (k + 1)
                = Inr (uint ?acc' + (v div 128) * 2 ^ (s + 7), (k + 1) + length (encodeVarint (v div 128)))"
    proof -
      have d: "uint (drop_bit 7 (word_of_int v :: 32 word)) = v div 128"
        using 1(2) v31 by (simp only: uint_shr7) simp
      have nn: "0 \<le> v div 128" using 1(2) by (simp add: pos_imp_zdiv_nonneg_iff)
      have "decodeVarint_loop ((pre @ [?b]) @ encodeVarint (uint (drop_bit 7 (word_of_int v :: 32 word))) @ post) offset ?acc' (s + 7) (k + 1)
                = Inr (uint ?acc' + (uint (drop_bit 7 (word_of_int v :: 32 word))) * 2 ^ (s + 7), (k + 1) + length (encodeVarint (uint (drop_bit 7 (word_of_int v :: 32 word)))))"
        using True nn b1 b2 1(5) by (intro 1(1)) (simp_all only: d, simp_all)
      then show ?thesis by (simp only: d)
    qed
    have idx: "(pre @ encodeVarint v @ post) ! (offset + k) = ?b"
      using 1(5) enc by (simp add: nth_append)
    have len: "\<not> length (pre @ encodeVarint v @ post) \<le> offset + k"
      using 1(5) enc by simp
    have "decodeVarint_loop (pre @ encodeVarint v @ post) offset acc s k
            = decodeVarint_loop (pre @ encodeVarint v @ post) offset ?acc' (s + 7) (k + 1)"
      by (subst decodeVarint_loop.simps) (simp only: len idx Let_def cont_byte_flag low smod if_False)
    also have "pre @ encodeVarint v @ post = (pre @ [?b]) @ encodeVarint (v div 128) @ post"
      using enc by simp
    finally show ?thesis using ih u' split enc by simp
  next
    case False
    let ?b = "ucast ((word_of_int v :: 32 word) AND 0x7F) :: byte"
    have enc: "encodeVarint v = [?b]" using False by (intro encodeVarint_last) simp
    have vm: "v mod 128 = v" using False 1(2) by simp
    have low: "ucast (?b AND 0x7F) = (word_of_int v :: 32 word)"
      by (simp only: last_byte_low) (simp only: low7_of_int vm)
    have idx: "(pre @ encodeVarint v @ post) ! (offset + k) = ?b"
      using 1(5) enc by (simp add: nth_append)
    have len: "\<not> length (pre @ encodeVarint v @ post) \<le> offset + k"
      using 1(5) enc by simp
    let ?acc' = "acc OR push_bit (s mod 32) (word_of_int v)"
    have step: "decodeVarint_loop (pre @ encodeVarint v @ post) offset acc s k
            = Inr (sint ?acc', k + 1)"
      by (subst decodeVarint_loop.simps) (simp only: len idx Let_def last_byte_flag low if_False if_True refl)
    have "uint ?acc' = uint acc + v * 2 ^ s"
    proof (cases "v = 0")
      case True
      then show ?thesis by simp
    next
      case nz: False
      then have "1 \<le> v" using 1(2) by simp
      then have "(1::int) * 2 ^ s \<le> v * 2 ^ s" by (intro mult_right_mono) simp_all
      then have "(2::int) ^ s < 2 ^ 31" using 1(4) uint_ge_0 [of acc] by linarith
      then have "s < 31"
        using power_strict_increasing_iff [of "2::int" s 31] by simp
      then have smod: "s mod 32 = s" by simp
      have "uint acc + v * 2 ^ s < 2 ^ 32" using 1(4) by simp
      with 1(3) 1(2) have "uint (acc OR push_bit s (word_of_int v)) = uint acc + v * 2 ^ s"
        by (rule word_or_push)
      then show ?thesis by (simp only: smod)
    qed
    moreover from this have "sint ?acc' = uint ?acc'" using 1(4) by (intro sint_small) simp
    ultimately show ?thesis using step enc by simp
  qed
qed

subsection \<open>When decoding fails\<close>

lemma decodeVarint_loop_fails_iff:
  "isl (decodeVarint_loop buffer offset v s k)
     = list_all (\<lambda>b. b AND 0x80 \<noteq> 0) (drop (offset + k) buffer)"
proof (induction buffer offset v s k rule: decodeVarint_loop.induct)
  case (1 buffer offset v shift bytesRead)
  show ?case
  proof (cases "length buffer \<le> offset + bytesRead")
    case True
    then show ?thesis by (subst decodeVarint_loop.simps) simp
  next
    case False
    then have d: "drop (offset + bytesRead) buffer
        = buffer ! (offset + bytesRead) # drop (offset + (bytesRead + 1)) buffer"
      by (simp add: Cons_nth_drop_Suc)
    show ?thesis
    proof (cases "buffer ! (offset + bytesRead) AND 0x80 = 0")
      case True
      with False d show ?thesis by (subst decodeVarint_loop.simps) (simp add: Let_def)
    next
      case nz: False
      have "isl (decodeVarint_loop buffer offset v shift bytesRead)
          = isl (decodeVarint_loop buffer offset
                  (v OR push_bit (shift mod 32) (ucast (buffer ! (offset + bytesRead) AND 0x7F)))
                  (shift + 7) (bytesRead + 1))"
        using False nz by (subst decodeVarint_loop.simps) (simp add: Let_def)
      also have "\<dots> = list_all (\<lambda>b. b AND 0x80 \<noteq> 0) (drop (offset + (bytesRead + 1)) buffer)"
        using False nz by (intro 1) simp_all
      finally show ?thesis using nz d by simp
    qed
  qed
qed

lemma decodeVarint_loop_error:
  "decodeVarint_loop buffer offset v s k = Inl e \<Longrightarrow> e = UnexpectedEndOfBuffer"
proof (induction buffer offset v s k rule: decodeVarint_loop.induct)
  case (1 buffer offset v shift bytesRead)
  show ?case
  proof (cases "length buffer \<le> offset + bytesRead")
    case True
    have "decodeVarint_loop buffer offset v shift bytesRead = Inl UnexpectedEndOfBuffer"
      using True by (subst decodeVarint_loop.simps) simp
    with "1.prems" show ?thesis by simp
  next
    case False
    show ?thesis
    proof (cases "buffer ! (offset + bytesRead) AND 0x80 = 0")
      case True
      have "isl (decodeVarint_loop buffer offset v shift bytesRead) = False"
        using False True by (subst decodeVarint_loop.simps) (simp add: Let_def)
      with "1.prems" show ?thesis by simp
    next
      case nz: False
      have "decodeVarint_loop buffer offset v shift bytesRead
          = decodeVarint_loop buffer offset
              (v OR push_bit (shift mod 32) (ucast (buffer ! (offset + bytesRead) AND 0x7F)))
              (shift + 7) (bytesRead + 1)"
        using False nz by (subst decodeVarint_loop.simps) (simp add: Let_def)
      with "1.prems" have "decodeVarint_loop buffer offset
              (v OR push_bit (shift mod 32) (ucast (buffer ! (offset + bytesRead) AND 0x7F)))
              (shift + 7) (bytesRead + 1) = Inl e"
        by simp
      with False nz show ?thesis by (intro "1.IH") simp_all
    qed
  qed
qed

text \<open>
  C4. \<open>decodeVarint\<close> throws in one situation only: the buffer ends before a byte with the
  continuation bit clear is found, that is, every byte from \<open>offset\<close> on has bit \<open>0x80\<close>
  set (also when there is no byte at \<open>offset\<close>). The error is then "Unexpected end of
  buffer". No count of the bytes read makes it fail.
\<close>

theorem decodeVarint_fails_iff:
  "isl (decodeVarint buffer offset)
     = list_all (\<lambda>b. b AND 0x80 \<noteq> 0) (drop offset buffer)
   \<and> (decodeVarint buffer offset = Inl UnexpectedEndOfBuffer)
     = list_all (\<lambda>b. b AND 0x80 \<noteq> 0) (drop offset buffer)"
proof -
  have a: "isl (decodeVarint buffer offset)
     = list_all (\<lambda>b. b AND 0x80 \<noteq> 0) (drop offset buffer)"
    using decodeVarint_loop_fails_iff [of buffer offset 0 0 0] by (simp add: decodeVarint_def)
  have "isl (decodeVarint buffer offset) = (decodeVarint buffer offset = Inl UnexpectedEndOfBuffer)"
    using decodeVarint_loop_error [of buffer offset 0 0 0]
    by (cases "decodeVarint buffer offset") (auto simp: decodeVarint_def)
  with a show ?thesis by simp
qed

text \<open>
  Twelve bytes, the first eleven with the continuation bit set: more than 10 bytes are
  read without termination and the call returns.
\<close>

theorem decodeVarint_eleven_continuations:
  "decodeVarint [0x80, 0x80, 0x80, 0x80, 0x80, 0x80, 0x80, 0x80, 0x80, 0x80, 0x80, 0x00] 0
     = Inr (0, 12)"
  by (simp add: decodeVarint_def decodeVarint_loop.simps)

subsection \<open>Round trip\<close>

text \<open>
  C5. For every integer \<open>0 \<le> n < 2^31\<close>, decoding the encoding of \<open>n\<close> at offset 0
  returns \<open>n\<close> and the number of bytes of the encoding.
\<close>

theorem decodeVarint_encodeVarint:
  assumes "0 \<le> n" and "n < 2 ^ 31"
  shows "decodeVarint (encodeVarint n) 0 = Inr (n, length (encodeVarint n))"
proof -
  have "decodeVarint_loop ([] @ encodeVarint n @ []) 0 0 0 0
          = Inr (uint (0 :: 32 word) + n * 2 ^ 0, 0 + length (encodeVarint n))"
    using assms by (intro decode_encode_loop) simp_all
  then show ?thesis by (simp add: decodeVarint_def)
qed

theorem decodeVarint_encodeVarint_witness:
  "decodeVarint (encodeVarint 1500) 0 = Inr (1500, 2) \<and> encodeVarint 1500 = [0xDC, 0x0B]"
proof -
  have e: "encodeVarint 1500 = [0xDC, 0x0B]"
    by (simp add: encodeVarint.simps)
  have "decodeVarint (encodeVarint 1500) 0 = Inr (1500, length (encodeVarint 1500))"
    by (rule decodeVarint_encodeVarint) simp_all
  with e show ?thesis by simp
qed

text \<open>
  The encoder keeps 32 bits: \<open>2^32\<close> is written as the two bytes \<open>80 00\<close>, which decode
  to 0.
\<close>

theorem decodeVarint_encodeVarint_2_32:
  "decodeVarint (encodeVarint 4294967296) 0 = Inr (0, 2)
   \<and> decodeVarint (encodeVarint 4294967296) 0
       \<noteq> Inr (4294967296, length (encodeVarint 4294967296))"
  by (simp add: encodeVarint.simps decodeVarint_def decodeVarint_loop.simps)

section \<open>Proofs: base64\<close>









section \<open>Proofs: payload normalisation (chunk.ts)\<close>















section \<open>Proofs: the writers (format.ts)\<close>

lemma sim_write:
  "sim fw mw \<Longrightarrow>
   sim (fw\<lparr>stream := stream_write b (stream fw), bytesWritten := bytesWritten fw + length b\<rparr>)
       (BinaryReplayMemoryWriter_write b mw)"
  by (simp add: sim_def stream_write_def BinaryReplayMemoryWriter_write_def Let_def)

lemma sim_writeHeader:
  "sim fw mw \<Longrightarrow>
   fst (BinaryReplayWriter_writeHeader fw) = fst (BinaryReplayMemoryWriter_writeHeader mw)
   \<and> sim (snd (BinaryReplayWriter_writeHeader fw)) (snd (BinaryReplayMemoryWriter_writeHeader mw))"
  by (simp add: sim_def BinaryReplayWriter_writeHeader_def BinaryReplayMemoryWriter_writeHeader_def
        stream_write_def BinaryReplayMemoryWriter_write_def Let_def ascii_bytes_def MAGIC_def)

lemma length_writeUInt32LE: "writeUInt32LE n = Inr b \<Longrightarrow> length b = 4"
  by (auto simp: writeUInt32LE_def split: if_splits)

lemma sim_writePacket:
  "sim fw mw \<Longrightarrow>
   fst (BinaryReplayWriter_writePacket packer r fw) = fst (BinaryReplayMemoryWriter_writePacket packer r mw)
   \<and> sim (snd (BinaryReplayWriter_writePacket packer r fw))
           (snd (BinaryReplayMemoryWriter_writePacket packer r mw))"
  by (simp add: sim_def BinaryReplayWriter_writePacket_def BinaryReplayMemoryWriter_writePacket_def
        stream_write_def BinaryReplayMemoryWriter_write_def Let_def length_writeUInt32LE
        split: option.splits sum.splits)

lemma sim_close:
  "sim fw mw \<Longrightarrow>
   fst (BinaryReplayWriter_close packer m fw) = fst (BinaryReplayMemoryWriter_close packer m mw)
   \<and> same_output (snd (BinaryReplayWriter_close packer m fw))
           (snd (BinaryReplayMemoryWriter_close packer m mw))"
  by (simp add: sim_def same_output_def BinaryReplayWriter_close_def BinaryReplayMemoryWriter_close_def
        stream_write_def stream_end_def BinaryReplayMemoryWriter_write_def Let_def
        length_writeUInt32LE split: option.splits sum.splits)

lemma sim_same_output: "sim fw mw \<Longrightarrow> same_output fw mw"
  by (simp add: sim_def same_output_def)

lemma sim_call:
  "sim fw mw \<Longrightarrow> \<not> is_Close c \<Longrightarrow>
   fst (BinaryReplayWriter_call packer c fw) = fst (BinaryReplayMemoryWriter_call packer c mw)
   \<and> sim (snd (BinaryReplayWriter_call packer c fw)) (snd (BinaryReplayMemoryWriter_call packer c mw))"
  by (cases c) (simp_all add: sim_writeHeader sim_writePacket)

lemma sim_last_call:
  "sim fw mw \<Longrightarrow>
   fst (BinaryReplayWriter_call packer c fw) = fst (BinaryReplayMemoryWriter_call packer c mw)
   \<and> same_output (snd (BinaryReplayWriter_call packer c fw)) (snd (BinaryReplayMemoryWriter_call packer c mw))"
  by (cases c) (simp_all add: sim_writeHeader sim_writePacket sim_close sim_same_output)

lemma sim_run_calls:
  "sim fw mw \<Longrightarrow> list_all (\<lambda>c. \<not> is_Close c) (butlast calls) \<Longrightarrow>
   fst (run_calls (BinaryReplayWriter_call packer) calls fw)
     = fst (run_calls (BinaryReplayMemoryWriter_call packer) calls mw)
   \<and> same_output (snd (run_calls (BinaryReplayWriter_call packer) calls fw))
         (snd (run_calls (BinaryReplayMemoryWriter_call packer) calls mw))"
proof (induction calls arbitrary: fw mw)
  case Nil
  then show ?case by (simp add: sim_same_output)
next
  case (Cons c cs)
  show ?case
  proof (cases "cs = []")
    case True
    with sim_last_call [OF Cons.prems(1), of packer c] show ?thesis
      by (simp add: case_prod_beta)
  next
    case False
    with Cons.prems(2) have nc: "\<not> is_Close c" and rest: "list_all (\<lambda>c. \<not> is_Close c) (butlast cs)"
      by simp_all
    from sim_call [OF Cons.prems(1) nc, of packer]
    have e: "fst (BinaryReplayWriter_call packer c fw) = fst (BinaryReplayMemoryWriter_call packer c mw)"
      and s: "sim (snd (BinaryReplayWriter_call packer c fw)) (snd (BinaryReplayMemoryWriter_call packer c mw))"
      by simp_all
    from Cons.IH [OF s rest] e show ?thesis
      by (simp add: case_prod_beta)
  qed
qed

lemma sim_new: "sim new_BinaryReplayWriter (new_BinaryReplayMemoryWriter callback)"
  by (simp add: sim_def new_BinaryReplayWriter_def new_BinaryReplayMemoryWriter_def createWriteStream_def)

text \<open>
  C7. For every sequence of \<open>writeHeader\<close> / \<open>writePacket\<close> / \<open>close\<close> calls in which no
  call follows a \<open>close\<close>, the file writer, the memory writer and the memory writer with
  a callback (stream mode) throw the same errors at the same calls and produce the same
  bytes: the file, \<open>getBuffer()\<close> of either memory writer, and the chunks the callback
  received, concatenated.
\<close>

theorem writers_same_output:
  assumes "list_all (\<lambda>c. \<not> is_Close c) (butlast calls)"
  shows "fst (run_calls (BinaryReplayWriter_call packer) calls new_BinaryReplayWriter)
           = fst (run_calls (BinaryReplayMemoryWriter_call packer) calls (new_BinaryReplayMemoryWriter False))
         \<and> fst (run_calls (BinaryReplayWriter_call packer) calls new_BinaryReplayWriter)
           = fst (run_calls (BinaryReplayMemoryWriter_call packer) calls (new_BinaryReplayMemoryWriter True))
         \<and> file_contents (stream (snd (run_calls (BinaryReplayWriter_call packer) calls new_BinaryReplayWriter)))
           = getBuffer (snd (run_calls (BinaryReplayMemoryWriter_call packer) calls (new_BinaryReplayMemoryWriter False)))
         \<and> file_contents (stream (snd (run_calls (BinaryReplayWriter_call packer) calls new_BinaryReplayWriter)))
           = getBuffer (snd (run_calls (BinaryReplayMemoryWriter_call packer) calls (new_BinaryReplayMemoryWriter True)))
         \<and> file_contents (stream (snd (run_calls (BinaryReplayWriter_call packer) calls new_BinaryReplayWriter)))
           = concat (delivered (snd (run_calls (BinaryReplayMemoryWriter_call packer) calls (new_BinaryReplayMemoryWriter True))))"
proof -
  have cb: "onPacketCallback (snd (run_calls (BinaryReplayMemoryWriter_call packer) calls w))
              = onPacketCallback w" for w
  proof (induction calls arbitrary: w)
    case Nil
    show ?case by simp
  next
    case (Cons c cs)
    have "onPacketCallback (snd (BinaryReplayMemoryWriter_call packer c w)) = onPacketCallback w"
      by (cases c)
         (simp_all add: BinaryReplayMemoryWriter_writeHeader_def
            BinaryReplayMemoryWriter_writePacket_def BinaryReplayMemoryWriter_close_def
            BinaryReplayMemoryWriter_write_def Let_def split: option.splits sum.splits)
    with Cons.IH show ?case by (simp add: case_prod_beta)
  qed
  note m = sim_run_calls [OF sim_new [of False] assms, of packer]
  note s = sim_run_calls [OF sim_new [of True] assms, of packer]
  have "onPacketCallback (snd (run_calls (BinaryReplayMemoryWriter_call packer) calls
          (new_BinaryReplayMemoryWriter True)))"
    by (simp add: cb new_BinaryReplayMemoryWriter_def)
  with m s show ?thesis
    by (simp add: same_output_def file_contents_def getBuffer_def)
qed

theorem writers_same_output_witness:
  "list_all (\<lambda>c. \<not> is_Close c)
     (butlast [WriteHeader,
        WritePacket \<lparr>timestamp = 0, name = ''chat'', data = Obj [(''msg'', Str ''hi'')]\<rparr>,
        Close \<lparr>spawnPosition = (0, 64, 0), startTime = 1000, endTime = 2500,
               botUsername = ''b'', mcVersion = ''1.8.9''\<rparr>])
   \<and> file_contents (stream (snd (run_calls (BinaryReplayWriter_call (\<lambda>v. [0xC0]))
        [WriteHeader,
         WritePacket \<lparr>timestamp = 0, name = ''chat'', data = Obj [(''msg'', Str ''hi'')]\<rparr>,
         Close \<lparr>spawnPosition = (0, 64, 0), startTime = 1000, endTime = 2500,
                botUsername = ''b'', mcVersion = ''1.8.9''\<rparr>]
        new_BinaryReplayWriter)))
     = concat (delivered (snd (run_calls (BinaryReplayMemoryWriter_call (\<lambda>v. [0xC0]))
        [WriteHeader,
         WritePacket \<lparr>timestamp = 0, name = ''chat'', data = Obj [(''msg'', Str ''hi'')]\<rparr>,
         Close \<lparr>spawnPosition = (0, 64, 0), startTime = 1000, endTime = 2500,
                botUsername = ''b'', mcVersion = ''1.8.9''\<rparr>]
        (new_BinaryReplayMemoryWriter True))))"
proof -
  have h: "list_all (\<lambda>c. \<not> is_Close c)
     (butlast [WriteHeader,
        WritePacket \<lparr>timestamp = 0, name = ''chat'', data = Obj [(''msg'', Str ''hi'')]\<rparr>,
        Close \<lparr>spawnPosition = (0, 64, 0), startTime = 1000, endTime = 2500,
               botUsername = ''b'', mcVersion = ''1.8.9''\<rparr>])"
    by simp
  from h writers_same_output [OF h, of "\<lambda>v. [0xC0]"] show ?thesis by blast
qed

text \<open>
  A \<open>writePacket\<close> after \<open>close\<close>: the file's stream has ended and takes no more bytes,
  the memory writer appends the record.
\<close>

theorem writers_differ_after_close:
  "file_contents (stream (snd (run_calls (BinaryReplayWriter_call (\<lambda>v. [0xC0]))
      [WriteHeader,
       Close \<lparr>spawnPosition = (0, 64, 0), startTime = 1000, endTime = 2500,
              botUsername = ''b'', mcVersion = ''1.8.9''\<rparr>,
       WritePacket \<lparr>timestamp = 0, name = ''chat'', data = Null\<rparr>]
      new_BinaryReplayWriter)))
   \<noteq> getBuffer (snd (run_calls (BinaryReplayMemoryWriter_call (\<lambda>v. [0xC0]))
      [WriteHeader,
       Close \<lparr>spawnPosition = (0, 64, 0), startTime = 1000, endTime = 2500,
              botUsername = ''b'', mcVersion = ''1.8.9''\<rparr>,
       WritePacket \<lparr>timestamp = 0, name = ''chat'', data = Null\<rparr>]
      (new_BinaryReplayMemoryWriter False)))"
  by (simp add: new_BinaryReplayWriter_def new_BinaryReplayMemoryWriter_def createWriteStream_def
        BinaryReplayWriter_writeHeader_def BinaryReplayWriter_writePacket_def
        BinaryReplayWriter_close_def BinaryReplayMemoryWriter_writeHeader_def
        BinaryReplayMemoryWriter_writePacket_def BinaryReplayMemoryWriter_close_def
        BinaryReplayMemoryWriter_write_def stream_write_def stream_end_def
        file_contents_def getBuffer_def writeUInt32LE_def PACKET_IDS_def Let_def)

subsection \<open>A record older than the one before it\<close>





section \<open>Proofs: the replay player (server.ts)\<close>

subsection \<open>\<open>trackWorldStatePacket\<close>\<close>


lemma get_field_Inl: "(get_field v k = Inl e) = ((v = Null \<or> v = Undefined) \<and> e = TypeError)"
  by (cases v) (auto simp: get_field_def)





lemma trackWorldStatePacket_TypeError:
  "trackWorldStatePacket p s = Inl e \<Longrightarrow> e = TypeError"
  by (auto simp: trackWorldStatePacket_def track_entities_def track_chunks_def get_field_Inl
        split: sum.splits if_splits jsval.splits)







subsection \<open>Seeking and speed\<close>

lemmas player_defs = seekToTime_def pausePlayback_def emit_def loaded_ReplayPlayer_def new_ReplayPlayer_def
  trackWorldStatePacket_def track_entities_def track_chunks_def track_state_def get_field_def
  property_def set_add_def push_to_def statePacketTypes_def Let_def

text \<open>
  C8. A seek to 500 ms in a recording whose only record is at 100 ms: the record is
  applied, no record has a later timestamp, and the cursor is 0, not the number of
  packets.
\<close>

theorem seekToTime_past_last_record:
  "packetIndex (snd (seekToTime (\<lambda>cid n d. False) (\<lambda>n. 0) 500
     (loaded_ReplayPlayer
        \<lparr>spawnPosition = (0, 64, 0), startTime = 1000, endTime = 2500,
         botUsername = ''b'', mcVersion = ''1.8.9''\<rparr>
        [\<lparr>timestamp = 100, name = ''spawn_entity'', data = Obj [(''entityId'', Num 42)]\<rparr>])))
   = 0
   \<and> activeEntityIds (snd (seekToTime (\<lambda>cid n d. False) (\<lambda>n. 0) 500
     (loaded_ReplayPlayer
        \<lparr>spawnPosition = (0, 64, 0), startTime = 1000, endTime = 2500,
         botUsername = ''b'', mcVersion = ''1.8.9''\<rparr>
        [\<lparr>timestamp = 100, name = ''spawn_entity'', data = Obj [(''entityId'', Num 42)]\<rparr>])))
   = [Num 42]"
  by (simp add: player_defs)

text \<open>
  C9. On a new player (speed 1), \<open>setPlaybackSpeed(20)\<close> emits \<open>playback:speed\<close> with
  the new clamped speed 10 first and the requested speed 20 second.
\<close>

theorem setPlaybackSpeed_event:
  "emitted (snd (setPlaybackSpeed (\<lambda>cid n d. False) (\<lambda>n. 0) 20 new_ReplayPlayer))
     = [PlaybackSpeed 10 20]
   \<and> playbackSpeed new_ReplayPlayer = 1
   \<and> playbackSpeed (snd (setPlaybackSpeed (\<lambda>cid n d. False) (\<lambda>n. 0) 20 new_ReplayPlayer)) = 10"
  by (simp add: setPlaybackSpeed_def new_ReplayPlayer_def emit_def Let_def)

subsection \<open>Rebuilding the projection on a seek\<close>
















section \<open>Proofs: writing a recording and reading it back (format.ts)\<close>






lemma readSync_first:
  "position < length file \<Longrightarrow> 0 < n \<Longrightarrow> fst (readSync file buffer n position) 0 = file ! position"
  by (simp add: readSync_def Let_def)




















end
